theory Spec2Isabelle
  imports Main "HOL-Library.Char_ord" "HOL-Library.List_Lexorder" "HOL-Library.AList"
begin

section \<open>The HAR mock server of api-mock-server.js\<close>

text \<open>
  The development embeds the request matcher and the responder of
  \<^verbatim>\<open>api-mock-server.js\<close> (class \<^verbatim>\<open>ApiMockServer\<close>): \<^verbatim>\<open>processHAREntries\<close>,
  \<^verbatim>\<open>normalizeJson\<close>, \<^verbatim>\<open>sortObjectKeys\<close>, \<^verbatim>\<open>generateRequestKey\<close>, \<^verbatim>\<open>sortQueryString\<close>,
  \<^verbatim>\<open>handleRequest\<close>, \<^verbatim>\<open>findMatchingEntry\<close>, \<^verbatim>\<open>handleNotFound\<close>, \<^verbatim>\<open>getAvailableEndpoints\<close>,
  \<^verbatim>\<open>findByPathPattern\<close>, \<^verbatim>\<open>findByFuzzyMatch\<close>, \<^verbatim>\<open>sendMockedResponse\<close> and \<^verbatim>\<open>getContentType\<close>.

  A JavaScript string is a \<^typ>\<open>string\<close>: one \<^typ>\<open>char\<close> for each UTF-16 code unit, for code
  units below 256. The functions of the platform that the class calls and does not define
  (\<^verbatim>\<open>JSON.parse\<close>, \<^verbatim>\<open>JSON.stringify\<close>, \<^verbatim>\<open>querystring.parse\<close>, \<^verbatim>\<open>new URL\<close>, \<^verbatim>\<open>RegExp\<close>,
  \<^verbatim>\<open>toUpperCase\<close>, \<^verbatim>\<open>toLowerCase\<close>, the \<^verbatim>\<open>res.set\<close> and \<^verbatim>\<open>res.get\<close> of Express, the clock) are the fields
  of a record \<open>js_runtime\<close> that every function of the class takes as its first argument, so a
  general theorem holds for whatever these functions compute. The second half of the theory
  defines one such runtime, \<open>node_rt\<close>, on which concrete requests are evaluated.
\<close>

subsection \<open>Strings\<close>

definition bslash :: char where
  "bslash = CHR 0x5C"

definition dquote :: char where
  "dquote = CHR 0x22"

text \<open>The class \<^verbatim>\<open>\s\<close> of a regular expression, which is also what \<^verbatim>\<open>trim\<close> strips.\<close>

definition js_isspace :: "char \<Rightarrow> bool" where
  "js_isspace c = ((of_char c :: nat) \<in> {9, 10, 11, 12, 13, 32, 160})"

definition is_digit :: "char \<Rightarrow> bool" where
  "is_digit c = (CHR ''0'' \<le> c \<and> c \<le> CHR ''9'')"

text \<open>\<^verbatim>\<open>s.replace(/\s+/g, ' ')\<close>: every maximal run of white space becomes one space.\<close>

function replace_ws :: "string \<Rightarrow> string" where
  "replace_ws [] = []"
| "replace_ws (c # cs) =
     (if js_isspace c then CHR '' '' # replace_ws (dropWhile js_isspace cs)
      else c # replace_ws cs)"
  by pat_completeness auto
termination
  by (relation "measure length") (auto simp: length_dropWhile_le less_Suc_eq_le)

definition trim :: "string \<Rightarrow> string" where
  "trim s = rev (dropWhile js_isspace (rev (dropWhile js_isspace s)))"

text \<open>\<^verbatim>\<open>xs.join(sep)\<close> on an array of strings.\<close>

fun js_join :: "string \<Rightarrow> string list \<Rightarrow> string" where
  "js_join sep [] = []"
| "js_join sep [x] = x"
| "js_join sep (x # y # ys) = x @ sep @ js_join sep (y # ys)"

text \<open>\<^verbatim>\<open>s.split(c)\<close> for a separator of one character: never the empty array.\<close>

fun js_split :: "char \<Rightarrow> string \<Rightarrow> string list" where
  "js_split d [] = [[]]"
| "js_split d (c # cs) =
     (case js_split d cs of
        [] \<Rightarrow> (if c = d then [[], []] else [[c]])
      | p # ps \<Rightarrow> (if c = d then [] # p # ps else (c # p) # ps))"

fun starts_with :: "string \<Rightarrow> string \<Rightarrow> bool" where
  "starts_with s [] = True"
| "starts_with [] (p # ps) = False"
| "starts_with (c # cs) (p # ps) = (c = p \<and> starts_with cs ps)"

text \<open>\<^verbatim>\<open>s.includes(sub)\<close>.\<close>

fun js_includes :: "string \<Rightarrow> string \<Rightarrow> bool" where
  "js_includes [] sub = (sub = [])"
| "js_includes (c # cs) sub = (starts_with (c # cs) sub \<or> js_includes cs sub)"

subsection \<open>Objects\<close>

text \<open>
  An object is the list of its own properties in the order \<^verbatim>\<open>Object.keys\<close> enumerates them:
  the keys that are array indices first, in ascending numeric order, then the other keys in
  the order of their creation.
\<close>

definition digits_value :: "string \<Rightarrow> int" where
  "digits_value k = foldl (\<lambda>n c. 10 * n + (of_char c - 48)) 0 k"

definition array_index :: "string \<Rightarrow> int option" where
  "array_index k =
     (if k \<noteq> [] \<and> list_all is_digit k \<and> (k = ''0'' \<or> \<not> starts_with k ''0'')
         \<and> digits_value k < 4294967295
      then Some (digits_value k) else None)"

fun insert_index :: "int \<Rightarrow> string \<Rightarrow> 'v \<Rightarrow> (string \<times> 'v) list \<Rightarrow> (string \<times> 'v) list" where
  "insert_index n k v [] = [(k, v)]"
| "insert_index n k v ((k', v') # ps) =
     (case array_index k' of
        Some m \<Rightarrow> (if m < n then (k', v') # insert_index n k v ps else (k, v) # (k', v') # ps)
      | None \<Rightarrow> (k, v) # (k', v') # ps)"

text \<open>Creating or overwriting the own data property \<open>k\<close> of an object.\<close>

definition own_set :: "(string \<times> 'v) list \<Rightarrow> string \<Rightarrow> 'v \<Rightarrow> (string \<times> 'v) list" where
  "own_set obj k v =
     (if map_of obj k \<noteq> None then AList.update k v obj
      else case array_index k of
             Some n \<Rightarrow> insert_index n k v obj
           | None \<Rightarrow> obj @ [(k, v)])"

text \<open>
  A JavaScript \<^verbatim>\<open>Map\<close> enumerates its keys in the order of their first insertion, and
  \<^verbatim>\<open>set\<close> on a key that is present replaces the value where it stands: that is
  \<^const>\<open>AList.update\<close>; \<^verbatim>\<open>get\<close> is \<^const>\<open>map_of\<close>.
\<close>

subsection \<open>JSON values and the runtime\<close>

datatype 'n json =
    JNull
  | JBool bool
  | JNum 'n
  | JStr string
  | JArr "'n json list"
  | JObj "(string \<times> 'n json) list"

text \<open>A value of the object \<^verbatim>\<open>querystring.parse\<close> returns: a string, or an array of strings
  for a name that is repeated.\<close>

datatype qs_value = QStr string | QArr "string list"

type_synonym res_headers = "(string \<times> string) list"

record 'n js_runtime =
  toUpperCase :: "string \<Rightarrow> string"
  toLowerCase :: "string \<Rightarrow> string"
  JSON_parse :: "string \<Rightarrow> 'n json option"
  JSON_stringify :: "'n json \<Rightarrow> string"
  querystring_parse :: "string \<Rightarrow> (string \<times> qs_value) list"
  URL_parse :: "string \<Rightarrow> (string \<times> string) option"
  RegExp_test :: "string \<Rightarrow> string \<Rightarrow> bool option"
  res_set :: "res_headers \<Rightarrow> string \<Rightarrow> string \<Rightarrow> res_headers option"
  res_get :: "res_headers \<Rightarrow> string \<Rightarrow> string option"
  now_iso :: string

text \<open>
  \<^item> \<open>JSON_parse\<close> is \<open>None\<close> where \<^verbatim>\<open>JSON.parse\<close> throws.
  \<^item> \<open>URL_parse u\<close> is the \<^verbatim>\<open>pathname\<close> and the \<^verbatim>\<open>search\<close> of \<^verbatim>\<open>new URL(u)\<close>, \<open>None\<close> where the
    constructor throws.
  \<^item> \<open>RegExp_test p s\<close> is \<^verbatim>\<open>new RegExp(p, 'i').test(s)\<close>, \<open>None\<close> where the constructor throws.
  \<^item> \<open>res_set hs n v\<close> is the headers of the live response after \<^verbatim>\<open>res.set(n, v)\<close>, \<open>None\<close>
    where it throws; \<open>res_get hs n\<close> is \<^verbatim>\<open>res.get(n)\<close>.
  \<^item> \<open>now_iso\<close> is \<^verbatim>\<open>new Date().toISOString()\<close>.
\<close>

subsection \<open>normalizeJson and sortObjectKeys\<close>

fun sortObjectKeys :: "'n json \<Rightarrow> 'n json" where
  "sortObjectKeys (JArr xs) = JArr (map sortObjectKeys xs)"
| "sortObjectKeys (JObj kvs) =
     JObj (foldl
       (\<lambda>sortedObj key.
          if key = ''__proto__'' then sortedObj
          else own_set sortedObj key
                 (case map_of (map (\<lambda>(k, v). (k, sortObjectKeys v)) kvs) key of
                    Some v \<Rightarrow> v
                  | None \<Rightarrow> JNull))
       [] (sort (map fst kvs)))"
| "sortObjectKeys v = v"

text \<open>
  In \<^verbatim>\<open>sortedObj[key] = ...\<close> the key \<^verbatim>\<open>__proto__\<close> reaches the setter of \<^verbatim>\<open>Object.prototype\<close>
  and creates no own property; \<^verbatim>\<open>Object.keys(obj).sort()\<close> orders the keys by their code
  units, the order of \<^typ>\<open>string\<close> here.
\<close>

definition normalizeJson :: "'n js_runtime \<Rightarrow> string \<Rightarrow> string" where
  "normalizeJson rt jsonString =
     (case JSON_parse rt jsonString of
        Some obj \<Rightarrow> JSON_stringify rt (sortObjectKeys obj)
      | None \<Rightarrow> jsonString)"

subsection \<open>sortQueryString and generateRequestKey\<close>

fun qs_render :: "qs_value \<Rightarrow> string" where
  "qs_render (QStr s) = s"
| "qs_render (QArr xs) = js_join '','' xs"

definition sortQueryString :: "'n js_runtime \<Rightarrow> string \<Rightarrow> string" where
  "sortQueryString rt query =
     (if query = [] then []
      else
        let params = querystring_parse rt query;
            sortedParams =
              map (\<lambda>key. key @ ''='' @
                     (case map_of params key of Some v \<Rightarrow> qs_render v | None \<Rightarrow> ''undefined''))
                  (sort (map fst params))
        in js_join ''&'' sortedParams)"

record postData =
  pd_text :: "string option"

text \<open>The body of the \<^verbatim>\<open>if (postData && postData.text && postData.text.trim())\<close> of
  \<^verbatim>\<open>generateRequestKey\<close>: what follows \<^verbatim>\<open>:body:\<close> in the key.\<close>

definition normalizeBody :: "'n js_runtime \<Rightarrow> string \<Rightarrow> string" where
  "normalizeBody rt txt =
     (let normalizedBody = normalizeJson rt txt
      in if normalizedBody \<noteq> txt then normalizedBody else trim (replace_ws txt))"

definition generateRequestKey ::
  "'n js_runtime \<Rightarrow> string \<Rightarrow> string \<Rightarrow> string \<Rightarrow> postData option \<Rightarrow> string" where
  "generateRequestKey rt method path queryString postData =
     (let key = toUpperCase rt method @ '':'' @ path;
          key = (if queryString \<noteq> [] then key @ ''?'' @ sortQueryString rt queryString else key)
      in case postData of
           None \<Rightarrow> key
         | Some pd \<Rightarrow>
             (case pd_text pd of
                None \<Rightarrow> key
              | Some t \<Rightarrow>
                  if t \<noteq> [] \<and> trim t \<noteq> [] then key @ '':body:'' @ normalizeBody rt t
                  else key))"

subsection \<open>The archive and the state of the server\<close>

record har_header =
  h_name :: string
  h_value :: string

record har_content =
  c_text :: "string option"

record har_request =
  req_method :: string
  req_url :: string
  req_postData :: "postData option"

record har_response =
  resp_status :: "nat option"
  resp_headers :: "har_header list option"
  resp_content :: "har_content option"

record har_entry =
  he_request :: har_request
  he_response :: har_response

text \<open>A value of \<^verbatim>\<open>requestMap\<close>.\<close>

record entry =
  e_request :: har_request
  e_response :: har_response
  e_index :: nat
  e_path :: string
  e_method :: string
  e_originalUrl :: string
  e_queryParams :: string

text \<open>An element of \<^verbatim>\<open>variants\<close>, and a value of \<^verbatim>\<open>apiGroups\<close>.\<close>

record variant =
  v_queryParams :: string
  v_postData :: "postData option"
  v_response :: har_response
  v_originalUrl :: string
  v_requestKey :: string
  v_index :: nat

record api_group =
  g_method :: string
  g_path :: string
  g_variants :: "variant list"

record server =
  requestMap :: "(string \<times> entry) list"
  apiGroups :: "(string \<times> api_group) list"

subsection \<open>processHAREntries\<close>

text \<open>
  The body of the \<^verbatim>\<open>forEach\<close>. An entry whose URL \<^verbatim>\<open>new URL\<close> rejects is caught, logged and
  skipped.
\<close>

definition processEntry :: "'n js_runtime \<Rightarrow> server \<Rightarrow> nat \<times> har_entry \<Rightarrow> server" where
  "processEntry rt st ie =
     (let index = fst ie;
          request = he_request (snd ie);
          response = he_response (snd ie)
      in case URL_parse rt (req_url request) of
           None \<Rightarrow> st
         | Some (pathname, search) \<Rightarrow>
             let basePath = pathname;
                 queryParams = drop 1 search;
                 requestKey = generateRequestKey rt (req_method request) basePath queryParams
                                (req_postData request);
                 requestMap' = AList.update requestKey
                   \<lparr>e_request = request, e_response = response, e_index = index,
                    e_path = basePath, e_method = req_method request,
                    e_originalUrl = req_url request, e_queryParams = queryParams\<rparr>
                   (requestMap st);
                 apiKey = req_method request @ '':'' @ basePath;
                 groups' =
                   (if map_of (apiGroups st) apiKey = None
                    then AList.update apiKey
                           \<lparr>g_method = req_method request, g_path = basePath, g_variants = []\<rparr>
                           (apiGroups st)
                    else apiGroups st);
                 v = \<lparr>v_queryParams = queryParams, v_postData = req_postData request,
                      v_response = response, v_originalUrl = req_url request,
                      v_requestKey = requestKey, v_index = index\<rparr>;
                 groups'' =
                   (case map_of groups' apiKey of
                      None \<Rightarrow> groups'
                    | Some g \<Rightarrow> AList.update apiKey (g\<lparr>g_variants := g_variants g @ [v]\<rparr>) groups')
             in \<lparr>requestMap = requestMap', apiGroups = groups''\<rparr>)"

definition processHAREntries :: "'n js_runtime \<Rightarrow> har_entry list \<Rightarrow> server" where
  "processHAREntries rt entries =
     foldl (processEntry rt) \<lparr>requestMap = [], apiGroups = []\<rparr> (enumerate 0 entries)"

subsection \<open>findByPathPattern and findByFuzzyMatch\<close>

datatype js_error = RegExpSyntaxError | HeaderError












subsection \<open>findMatchingEntry\<close>






subsection \<open>The live response\<close>

record endpoint =
  ep_method :: string
  ep_path :: string
  ep_key :: string

text \<open>The \<^verbatim>\<open>errorResponse\<close> object of \<^verbatim>\<open>handleNotFound\<close>.\<close>

record error_response =
  er_error :: string
  er_requested_method :: string
  er_requested_path :: string
  er_requested_query :: "string option"
  er_requested_timestamp :: string
  er_availableEndpoints :: "endpoint list"

datatype 'n res_body =
    SentJson "'n json"
  | SentText string
  | SentError error_response
  | Ended

text \<open>
  What one request leaves on \<^verbatim>\<open>res\<close>: the status, the headers, what was sent, and the
  trace of the header loop of \<^verbatim>\<open>sendMockedResponse\<close>: \<open>lr_attempted\<close> lists the calls
  \<^verbatim>\<open>res.set(header.name, header.value)\<close> it made, in order, and \<open>lr_warnings\<close> the names of the
  headers whose call threw and was caught.
\<close>

record 'n live_response =
  lr_status :: nat
  lr_headers :: res_headers
  lr_body :: "'n res_body"
  lr_attempted :: "(string \<times> string) list"
  lr_warnings :: "string list"

subsection \<open>handleNotFound and getAvailableEndpoints\<close>



subsection \<open>sendMockedResponse and getContentType\<close>

definition skipHeaders :: "string list" where
  "skipHeaders =
     [''content-encoding'', ''content-length'', ''transfer-encoding'',
      ''connection'', ''upgrade'', ''host'', ''origin'', ''referer'']"

text \<open>\<^verbatim>\<open>headers.find(h => h.name.toLowerCase() === 'content-type')\<close>, then its value.\<close>

definition getContentType :: "'n js_runtime \<Rightarrow> har_response \<Rightarrow> string option" where
  "getContentType rt harResponse =
     (case resp_headers harResponse of
        None \<Rightarrow> None
      | Some hs \<Rightarrow>
          (case filter (\<lambda>h. toLowerCase rt (h_name h) = ''content-type'') hs of
             [] \<Rightarrow> None
           | contentTypeHeader # _ \<Rightarrow> Some (h_value contentTypeHeader)))"

text \<open>The \<^verbatim>\<open>forEach\<close> over the recorded headers, on the headers, the attempts and the
  warnings so far.\<close>

fun setRecordedHeaders ::
  "'n js_runtime \<Rightarrow> har_header list
     \<Rightarrow> res_headers \<times> (string \<times> string) list \<times> string list
     \<Rightarrow> res_headers \<times> (string \<times> string) list \<times> string list" where
  "setRecordedHeaders rt [] acc = acc"
| "setRecordedHeaders rt (header # rest) (hs, attempted, warnings) =
     (if toLowerCase rt (h_name header) \<notin> set skipHeaders
      then (case res_set rt hs (h_name header) (h_value header) of
              Some hs' \<Rightarrow>
                setRecordedHeaders rt rest
                  (hs', attempted @ [(h_name header, h_value header)], warnings)
            | None \<Rightarrow>
                setRecordedHeaders rt rest
                  (hs, attempted @ [(h_name header, h_value header)], warnings @ [h_name header]))
      else setRecordedHeaders rt rest (hs, attempted, warnings))"

text \<open>What is sent: \<^verbatim>\<open>res.json\<close> of the parsed text, \<^verbatim>\<open>res.send\<close> of the text, or \<^verbatim>\<open>res.end()\<close>.\<close>

definition sendContent :: "'n js_runtime \<Rightarrow> har_response \<Rightarrow> 'n res_body" where
  "sendContent rt harResponse =
     (case resp_content harResponse of
        None \<Rightarrow> Ended
      | Some content \<Rightarrow>
          (case c_text content of
             None \<Rightarrow> Ended
           | Some txt \<Rightarrow>
               if txt = [] then Ended
               else (case getContentType rt harResponse of
                       None \<Rightarrow> SentText txt
                     | Some contentType \<Rightarrow>
                         if contentType \<noteq> [] \<and> js_includes contentType ''application/json''
                         then (case JSON_parse rt txt of
                                 Some jsonContent \<Rightarrow> SentJson jsonContent
                               | None \<Rightarrow> SentText txt)
                         else SentText txt)))"

definition sendMockedResponse ::
  "'n js_runtime \<Rightarrow> res_headers \<Rightarrow> entry \<Rightarrow> js_error + 'n live_response" where
  "sendMockedResponse rt res matchedEntry =
     (let harResponse = e_response matchedEntry;
          statusCode = (case resp_status harResponse of
                          None \<Rightarrow> 200
                        | Some n \<Rightarrow> if n = 0 then 200 else n);
          (hs, attempted, warnings) =
            (case resp_headers harResponse of
               None \<Rightarrow> (res, [], [])
             | Some headers \<Rightarrow> setRecordedHeaders rt headers (res, [], []));
          cors = (case res_get rt hs ''Access-Control-Allow-Origin'' of
                    None \<Rightarrow> res_set rt hs ''Access-Control-Allow-Origin'' ''*''
                  | Some v \<Rightarrow>
                      if v = [] then res_set rt hs ''Access-Control-Allow-Origin'' ''*''
                      else Some hs)
      in case cors of
           None \<Rightarrow> Inl HeaderError
         | Some hs' \<Rightarrow>
             Inr \<lparr>lr_status = statusCode, lr_headers = hs',
                  lr_body = sendContent rt harResponse,
                  lr_attempted = attempted, lr_warnings = warnings\<rparr>)"

subsection \<open>handleRequest\<close>




section \<open>A runtime to evaluate on\<close>

text \<open>
  \<open>node_rt\<close> follows Node.js on the inputs named below, which are the only ones it is
  evaluated on: ASCII strings; JSON texts whose numbers are integers that a double holds
  exactly and whose strings have no
  \<^verbatim>\<open>\u\<close> escape; query strings of fewer than 1000 pairs whose percent escapes are below
  \<^verbatim>\<open>%80\<close>; \<^verbatim>\<open>http\<close> and \<^verbatim>\<open>https\<close> URLs that the URL parser leaves as they are; regular expressions
  made of characters, escaped characters, \<^verbatim>\<open>\d\<close>, classes of ranges, \<^verbatim>\<open>+\<close> and \<^verbatim>\<open>{n}\<close> between
  \<^verbatim>\<open>^\<close> and \<^verbatim>\<open>$\<close>; header names and values that Node accepts or rejects for their characters,
  stored as they are given. No general theorem depends on it.
\<close>

subsection \<open>Case mapping\<close>

definition upper_char :: "char \<Rightarrow> char" where
  "upper_char c =
     (case map_of (zip ''abcdefghijklmnopqrstuvwxyz'' ''ABCDEFGHIJKLMNOPQRSTUVWXYZ'') c of
        Some u \<Rightarrow> u | None \<Rightarrow> c)"

definition lower_char :: "char \<Rightarrow> char" where
  "lower_char c =
     (case map_of (zip ''ABCDEFGHIJKLMNOPQRSTUVWXYZ'' ''abcdefghijklmnopqrstuvwxyz'') c of
        Some l \<Rightarrow> l | None \<Rightarrow> c)"

subsection \<open>JSON.parse\<close>

datatype jtoken =
    TLBrace | TRBrace | TLBrack | TRBrack | TColon | TComma
  | TString string | TNumber int | TTrue | TFalse | TNull

datatype lex_state =
    LStart
  | LStr string
  | LEsc string
  | LNum bool string
  | LWord string

definition json_ws :: "char \<Rightarrow> bool" where
  "json_ws c = ((of_char c :: nat) \<in> {9, 10, 13, 32})"

definition punct_token :: "char \<Rightarrow> jtoken option" where
  "punct_token c =
     map_of [(CHR ''{'', TLBrace), (CHR ''}'', TRBrace), (CHR ''['', TLBrack),
             (CHR '']'', TRBrack), (CHR '':'', TColon), (CHR '','', TComma)] c"

definition escape_char :: "char \<Rightarrow> char option" where
  "escape_char c =
     map_of [(dquote, dquote), (bslash, bslash), (CHR ''/'', CHR ''/''),
             (CHR ''b'', CHR 0x08), (CHR ''f'', CHR 0x0C), (CHR ''n'', CHR 0x0A),
             (CHR ''r'', CHR 0x0D), (CHR ''t'', CHR 0x09)] c"

definition number_token :: "bool \<Rightarrow> string \<Rightarrow> jtoken option" where
  "number_token neg ds =
     (if ds = [] \<or> (starts_with ds ''0'' \<and> ds \<noteq> ''0'') then None
      else Some (TNumber (if neg then - digits_value ds else digits_value ds)))"

definition word_token :: "string \<Rightarrow> jtoken option" where
  "word_token w = map_of [(''true'', TTrue), (''false'', TFalse), (''null'', TNull)] w"

definition is_lower :: "char \<Rightarrow> bool" where
  "is_lower c = (CHR ''a'' \<le> c \<and> c \<le> CHR ''z'')"

definition tcons :: "jtoken option \<Rightarrow> jtoken list option \<Rightarrow> jtoken list option" where
  "tcons t ts = (case t of None \<Rightarrow> None | Some x \<Rightarrow> map_option ((#) x) ts)"

text \<open>The first character of a token, between tokens.\<close>

definition lex_first :: "char \<Rightarrow> (lex_state + jtoken) option" where
  "lex_first c =
     (if json_ws c then Some (Inl LStart)
      else if c = dquote then Some (Inl (LStr []))
      else if c = CHR ''-'' then Some (Inl (LNum True []))
      else if is_digit c then Some (Inl (LNum False [c]))
      else if is_lower c then Some (Inl (LWord [c]))
      else map_option Inr (punct_token c))"

fun lex_json :: "lex_state \<Rightarrow> string \<Rightarrow> jtoken list option" where
  "lex_json LStart [] = Some []"
| "lex_json (LStr acc) [] = None"
| "lex_json (LEsc acc) [] = None"
| "lex_json (LNum neg ds) [] = tcons (number_token neg ds) (Some [])"
| "lex_json (LWord w) [] = tcons (word_token w) (Some [])"
| "lex_json LStart (c # cs) =
     (case lex_first c of
        None \<Rightarrow> None
      | Some (Inl st) \<Rightarrow> lex_json st cs
      | Some (Inr t) \<Rightarrow> tcons (Some t) (lex_json LStart cs))"
| "lex_json (LStr acc) (c # cs) =
     (if c = dquote then tcons (Some (TString acc)) (lex_json LStart cs)
      else if c = bslash then lex_json (LEsc acc) cs
      else if (of_char c :: nat) < 32 then None
      else lex_json (LStr (acc @ [c])) cs)"
| "lex_json (LEsc acc) (c # cs) =
     (case escape_char c of
        None \<Rightarrow> None
      | Some d \<Rightarrow> lex_json (LStr (acc @ [d])) cs)"
| "lex_json (LNum neg ds) (c # cs) =
     (if is_digit c then lex_json (LNum neg (ds @ [c])) cs
      else (case lex_first c of
              None \<Rightarrow> None
            | Some (Inl st) \<Rightarrow> tcons (number_token neg ds) (lex_json st cs)
            | Some (Inr t) \<Rightarrow>
                tcons (number_token neg ds) (tcons (Some t) (lex_json LStart cs))))"
| "lex_json (LWord w) (c # cs) =
     (if is_lower c then lex_json (LWord (w @ [c])) cs
      else (case lex_first c of
              None \<Rightarrow> None
            | Some (Inl st) \<Rightarrow> tcons (word_token w) (lex_json st cs)
            | Some (Inr t) \<Rightarrow>
                tcons (word_token w) (tcons (Some t) (lex_json LStart cs))))"

text \<open>
  The parser descends on the tokens with a bound on the number of calls; twice the number
  of tokens, plus two, is never reached. A member of an object is a data property, created
  or overwritten by \<^const>\<open>own_set\<close>.
\<close>

fun parse_value :: "nat \<Rightarrow> jtoken list \<Rightarrow> (int json \<times> jtoken list) option"
  and parse_elems :: "nat \<Rightarrow> jtoken list \<Rightarrow> int json list \<Rightarrow> (int json \<times> jtoken list) option"
  and parse_members ::
    "nat \<Rightarrow> jtoken list \<Rightarrow> (string \<times> int json) list \<Rightarrow> (int json \<times> jtoken list) option" where
  "parse_value 0 ts = None"
| "parse_value (Suc n) [] = None"
| "parse_value (Suc n) (TString s # ts) = Some (JStr s, ts)"
| "parse_value (Suc n) (TNumber i # ts) = Some (JNum i, ts)"
| "parse_value (Suc n) (TTrue # ts) = Some (JBool True, ts)"
| "parse_value (Suc n) (TFalse # ts) = Some (JBool False, ts)"
| "parse_value (Suc n) (TNull # ts) = Some (JNull, ts)"
| "parse_value (Suc n) (TLBrack # ts) =
     (case ts of
        TRBrack # ts' \<Rightarrow> Some (JArr [], ts')
      | _ \<Rightarrow> parse_elems n ts [])"
| "parse_value (Suc n) (TLBrace # ts) =
     (case ts of
        TRBrace # ts' \<Rightarrow> Some (JObj [], ts')
      | _ \<Rightarrow> parse_members n ts [])"
| "parse_value (Suc n) (TRBrace # ts) = None"
| "parse_value (Suc n) (TRBrack # ts) = None"
| "parse_value (Suc n) (TColon # ts) = None"
| "parse_value (Suc n) (TComma # ts) = None"
| "parse_elems 0 ts acc = None"
| "parse_elems (Suc n) ts acc =
     (case parse_value n ts of
        None \<Rightarrow> None
      | Some (v, ts') \<Rightarrow>
          (case ts' of
             TComma # ts'' \<Rightarrow> parse_elems n ts'' (acc @ [v])
           | TRBrack # ts'' \<Rightarrow> Some (JArr (acc @ [v]), ts'')
           | _ \<Rightarrow> None))"
| "parse_members 0 ts obj = None"
| "parse_members (Suc n) ts obj =
     (case ts of
        TString k # TColon # ts1 \<Rightarrow>
          (case parse_value n ts1 of
             None \<Rightarrow> None
           | Some (v, ts2) \<Rightarrow>
               (case ts2 of
                  TComma # ts3 \<Rightarrow> parse_members n ts3 (own_set obj k v)
                | TRBrace # ts3 \<Rightarrow> Some (JObj (own_set obj k v), ts3)
                | _ \<Rightarrow> None))
      | _ \<Rightarrow> None)"

definition node_JSON_parse :: "string \<Rightarrow> int json option" where
  "node_JSON_parse s =
     (case lex_json LStart s of
        None \<Rightarrow> None
      | Some ts \<Rightarrow>
          (case parse_value (2 * length ts + 2) ts of
             Some (v, []) \<Rightarrow> Some v
           | _ \<Rightarrow> None))"

subsection \<open>JSON.stringify\<close>

definition digit_char :: "nat \<Rightarrow> char" where
  "digit_char d = ''0123456789abcdef'' ! (d mod 16)"

fun show_nat :: "nat \<Rightarrow> string" where
  "show_nat n = (if n < 10 then [digit_char n] else show_nat (n div 10) @ [digit_char (n mod 10)])"

definition show_int :: "int \<Rightarrow> string" where
  "show_int i = (if i < 0 then CHR ''-'' # show_nat (nat (- i)) else show_nat (nat i))"

definition quote_char :: "char \<Rightarrow> string" where
  "quote_char c =
     (case map_of [(dquote, [bslash, dquote]), (bslash, [bslash, bslash]),
                   (CHR 0x08, [bslash, CHR ''b'']), (CHR 0x0C, [bslash, CHR ''f'']),
                   (CHR 0x0A, [bslash, CHR ''n'']), (CHR 0x0D, [bslash, CHR ''r'']),
                   (CHR 0x09, [bslash, CHR ''t''])] c of
        Some e \<Rightarrow> e
      | None \<Rightarrow>
          if (of_char c :: nat) < 32
          then [bslash] @ ''u00'' @ [digit_char (of_char c div 16), digit_char (of_char c mod 16)]
          else [c])"

definition quote :: "string \<Rightarrow> string" where
  "quote s = [dquote] @ concat (map quote_char s) @ [dquote]"

fun node_JSON_stringify :: "int json \<Rightarrow> string" where
  "node_JSON_stringify JNull = ''null''"
| "node_JSON_stringify (JBool b) = (if b then ''true'' else ''false'')"
| "node_JSON_stringify (JNum i) = show_int i"
| "node_JSON_stringify (JStr s) = quote s"
| "node_JSON_stringify (JArr xs) = ''['' @ js_join '','' (map node_JSON_stringify xs) @ '']''"
| "node_JSON_stringify (JObj kvs) =
     ''{'' @ js_join '','' (map (\<lambda>(k, v). quote k @ '':'' @ node_JSON_stringify v) kvs) @ ''}''"

subsection \<open>querystring.parse\<close>

definition hex_value :: "char \<Rightarrow> nat option" where
  "hex_value c =
     map_of (zip ''0123456789abcdefABCDEF''
                 [0, 1, 2, 3, 4, 5, 6, 7, 8, 9, 10, 11, 12, 13, 14, 15, 10, 11, 12, 13, 14, 15]) c"

text \<open>\<^verbatim>\<open>querystring.unescape\<close>: a percent sign that two hexadecimal digits do not follow
  stays.\<close>

fun pct_decode :: "string \<Rightarrow> string" where
  "pct_decode (c # h1 # h2 # cs) =
     (case (if c = CHR ''%'' then hex_value h1 else None, hex_value h2) of
        (Some a, Some b) \<Rightarrow> char_of (16 * a + b) # pct_decode cs
      | _ \<Rightarrow> c # pct_decode (h1 # h2 # cs))"
| "pct_decode cs = cs"

definition qs_decode :: "string \<Rightarrow> string" where
  "qs_decode s = pct_decode (map (\<lambda>c. if c = CHR ''+'' then CHR '' '' else c) s)"

definition qs_add :: "(string \<times> qs_value) list \<Rightarrow> string \<Rightarrow> string \<Rightarrow> (string \<times> qs_value) list" where
  "qs_add obj key val =
     (case map_of obj key of
        None \<Rightarrow> own_set obj key (QStr val)
      | Some (QStr cur) \<Rightarrow> own_set obj key (QArr [cur, val])
      | Some (QArr curs) \<Rightarrow> own_set obj key (QArr (curs @ [val])))"

definition qs_pair :: "(string \<times> qs_value) list \<Rightarrow> string \<Rightarrow> (string \<times> qs_value) list" where
  "qs_pair obj seg =
     (if seg = [] then obj
      else qs_add obj (qs_decode (takeWhile (\<lambda>c. c \<noteq> CHR ''='') seg))
                      (qs_decode (drop 1 (dropWhile (\<lambda>c. c \<noteq> CHR ''='') seg))))"

definition node_querystring_parse :: "string \<Rightarrow> (string \<times> qs_value) list" where
  "node_querystring_parse qs = (if qs = [] then [] else foldl qs_pair [] (js_split CHR ''&'' qs))"

subsection \<open>new URL\<close>

definition url_delim :: "char \<Rightarrow> bool" where
  "url_delim c = (c = CHR ''/'' \<or> c = CHR ''?'' \<or> c = CHR ''#'')"

definition url_rest :: "string \<Rightarrow> (string \<times> string) option" where
  "url_rest r =
     (let host = takeWhile (\<lambda>c. \<not> url_delim c) r;
          after = dropWhile (\<lambda>c. \<not> url_delim c) r;
          path = takeWhile (\<lambda>c. c \<noteq> CHR ''?'' \<and> c \<noteq> CHR ''#'') after;
          tail = dropWhile (\<lambda>c. c \<noteq> CHR ''?'' \<and> c \<noteq> CHR ''#'') after;
          query = (if starts_with tail ''?'' then takeWhile (\<lambda>c. c \<noteq> CHR ''#'') (drop 1 tail)
                   else [])
      in if host = [] then None
         else Some (if path = [] then ''/'' else path,
                    if query = [] then [] else CHR ''?'' # query))"

definition node_URL_parse :: "string \<Rightarrow> (string \<times> string) option" where
  "node_URL_parse u =
     (if starts_with u ''http://'' then url_rest (drop 7 u)
      else if starts_with u ''https://'' then url_rest (drop 8 u)
      else None)"

subsection \<open>RegExp\<close>

datatype ratom = RChar char | RDigit | RClass "(char \<times> char) list"

datatype ritem = IAtom ratom | IPlus | IRep nat

datatype rquant = QOne | QPlus

text \<open>The items of a class: ranges \<^verbatim>\<open>a-f\<close>, escaped characters and characters.\<close>

fun class_items :: "string \<Rightarrow> (char \<times> char) list" where
  "class_items (lo # m # hi # cs) =
     (if lo = bslash then (m, m) # class_items (hi # cs)
      else if m = CHR ''-'' then (lo, hi) # class_items cs
      else (lo, lo) # class_items (m # hi # cs))"
| "class_items [lo, m] = (if lo = bslash then [(m, m)] else [(lo, lo), (m, m)])"
| "class_items [lo] = [(lo, lo)]"
| "class_items [] = []"

definition re_special :: "char \<Rightarrow> bool" where
  "re_special c = (c \<in> set ''()*?|^$.]}'')"

definition is_alnum :: "char \<Rightarrow> bool" where
  "is_alnum c = (is_digit c \<or> is_lower c \<or> (CHR ''A'' \<le> c \<and> c \<le> CHR ''Z''))"

definition icons :: "ritem \<Rightarrow> ritem list option \<Rightarrow> ritem list option" where
  "icons i r = map_option ((#) i) r"

function re_lex :: "string \<Rightarrow> ritem list option" where
  "re_lex [] = Some []"
| "re_lex (c # cs) =
     (if c = bslash then
        (case cs of
           [] \<Rightarrow> None
         | d # ds \<Rightarrow>
             if d = CHR ''d'' then icons (IAtom RDigit) (re_lex ds)
             else if is_alnum d then None
             else icons (IAtom (RChar d)) (re_lex ds))
      else if c = CHR ''['' then
        (case dropWhile (\<lambda>x. x \<noteq> CHR '']'') cs of
           [] \<Rightarrow> None
         | _ # rest \<Rightarrow>
             icons (IAtom (RClass (class_items (takeWhile (\<lambda>x. x \<noteq> CHR '']'') cs))))
                   (re_lex rest))
      else if c = CHR ''{'' then
        (case dropWhile is_digit cs of
           [] \<Rightarrow> None
         | e # rest \<Rightarrow>
             if e = CHR ''}'' \<and> takeWhile is_digit cs \<noteq> []
             then icons (IRep (nat (digits_value (takeWhile is_digit cs)))) (re_lex rest)
             else None)
      else if c = CHR ''+'' then icons IPlus (re_lex cs)
      else if re_special c then None
      else icons (IAtom (RChar c)) (re_lex cs))"
  by pat_completeness auto
termination
proof (relation "measure length")
  fix c :: char and cs x rest and P :: "char \<Rightarrow> bool"
  show "wf (measure (length :: string \<Rightarrow> nat))" by simp
next
  fix c :: char and cs :: string and x rest
  assume "dropWhile (\<lambda>x. x \<noteq> CHR '']'') cs = x # rest"
  then have "length (x # rest) \<le> length cs"
    by (metis length_dropWhile_le)
  then show "(rest, c # cs) \<in> measure length" by simp
next
  fix c :: char and cs :: string and x rest
  assume "dropWhile is_digit cs = x # rest"
  then have "length (x # rest) \<le> length cs"
    by (metis length_dropWhile_le)
  then show "(rest, c # cs) \<in> measure length" by simp
qed auto

fun re_build :: "ritem list \<Rightarrow> (ratom \<times> rquant) list option" where
  "re_build [] = Some []"
| "re_build (IAtom a # IPlus # r) = map_option ((#) (a, QPlus)) (re_build r)"
| "re_build (IAtom a # IRep n # r) = map_option ((@) (replicate n (a, QOne))) (re_build r)"
| "re_build (IAtom a # r) = map_option ((#) (a, QOne)) (re_build r)"
| "re_build (IPlus # r) = None"
| "re_build (IRep n # r) = None"

text \<open>With the flag \<^verbatim>\<open>i\<close> two characters match when their upper cases are equal.\<close>

fun atom_ok :: "ratom \<Rightarrow> char \<Rightarrow> bool" where
  "atom_ok (RChar x) c = (upper_char x = upper_char c)"
| "atom_ok RDigit c = is_digit c"
| "atom_ok (RClass rs) c =
     list_ex (\<lambda>(lo, hi). (lo \<le> c \<and> c \<le> hi) \<or> (lo \<le> upper_char c \<and> upper_char c \<le> hi)
                          \<or> (lo \<le> lower_char c \<and> lower_char c \<le> hi)) rs"

fun re_match :: "(ratom \<times> rquant) list \<Rightarrow> string \<Rightarrow> bool" where
  "re_match [] s = (s = [])"
| "re_match ((a, q) # r) [] = False"
| "re_match ((a, QOne) # r) (c # cs) = (atom_ok a c \<and> re_match r cs)"
| "re_match ((a, QPlus) # r) (c # cs) =
     (atom_ok a c \<and> (re_match ((a, QPlus) # r) cs \<or> re_match r cs))"

definition node_RegExp_test :: "string \<Rightarrow> string \<Rightarrow> bool option" where
  "node_RegExp_test source s =
     (if starts_with source ''^'' \<and> starts_with (rev source) ''$''
      then (case re_lex (butlast (drop 1 source)) of
              None \<Rightarrow> None
            | Some items \<Rightarrow> map_option (\<lambda>re. re_match re s) (re_build items))
      else None)"

subsection \<open>res.set and res.get\<close>

definition token_char :: "char \<Rightarrow> bool" where
  "token_char c = (is_alnum c \<or> c \<in> set (''!#$%&*+-.^_`|~'' @ [CHR 0x27]))"

definition value_char :: "char \<Rightarrow> bool" where
  "value_char c = (c = CHR 0x09 \<or> (32 \<le> (of_char c :: nat) \<and> (of_char c :: nat) \<noteq> 127))"

definition node_res_set :: "res_headers \<Rightarrow> string \<Rightarrow> string \<Rightarrow> res_headers option" where
  "node_res_set hs n v =
     (if n \<noteq> [] \<and> list_all token_char n \<and> list_all value_char v
      then Some (AList.update (map lower_char n) v hs)
      else None)"

definition node_res_get :: "res_headers \<Rightarrow> string \<Rightarrow> string option" where
  "node_res_get hs n = map_of hs (map lower_char n)"

subsection \<open>The runtime\<close>

definition node_rt :: "int js_runtime" where
  "node_rt =
     \<lparr>toUpperCase = map upper_char,
      toLowerCase = map lower_char,
      JSON_parse = node_JSON_parse,
      JSON_stringify = node_JSON_stringify,
      querystring_parse = node_querystring_parse,
      URL_parse = node_URL_parse,
      RegExp_test = node_RegExp_test,
      res_set = node_res_set,
      res_get = node_res_get,
      now_iso = ''2024-01-01T00:00:00.000Z''\<rparr>"

text \<open>The headers that the middleware of \<^verbatim>\<open>setupMiddleware\<close> has set on every response
  when \<^verbatim>\<open>handleRequest\<close> runs.\<close>

definition cors_headers :: res_headers where
  "cors_headers =
     [(''access-control-allow-origin'', ''*''),
      (''access-control-allow-methods'', ''GET, POST, PUT, DELETE, OPTIONS, PATCH, HEAD''),
      (''access-control-allow-headers'',
       ''Origin, X-Requested-With, Content-Type, Accept, Authorization, Cache-Control, Pragma''),
      (''access-control-max-age'', ''86400'')]"

section \<open>Notions used in the statements\<close>

text \<open>What \<^const>\<open>processEntry\<close> stores in \<^verbatim>\<open>requestMap\<close> for the archive entry \<open>snd ie\<close> at the
  index \<open>fst ie\<close>: the key and the value of its \<^verbatim>\<open>requestMap.set\<close>, \<open>None\<close> for an entry that is
  skipped.\<close>

definition registered :: "'n js_runtime \<Rightarrow> nat \<times> har_entry \<Rightarrow> (string \<times> entry) option" where
  "registered rt ie =
     (let request = he_request (snd ie)
      in case URL_parse rt (req_url request) of
           None \<Rightarrow> None
         | Some (pathname, search) \<Rightarrow>
             Some (generateRequestKey rt (req_method request) pathname (drop 1 search)
                     (req_postData request),
                   \<lparr>e_request = request, e_response = he_response (snd ie), e_index = fst ie,
                    e_path = pathname, e_method = req_method request,
                    e_originalUrl = req_url request, e_queryParams = drop 1 search\<rparr>))"

text \<open>Every group has a variant, and \<^verbatim>\<open>requestMap\<close> has the key of every variant.\<close>

definition groups_ok :: "server \<Rightarrow> bool" where
  "groups_ok st =
     (\<forall>apiKey g. map_of (apiGroups st) apiKey = Some g \<longrightarrow>
        g_variants g \<noteq> [] \<and>
        (\<forall>v \<in> set (g_variants g). map_of (requestMap st) (v_requestKey v) \<noteq> None))"


text \<open>Two JSON values that are equal up to the order of the keys of their objects, at every
  depth. The keys of an object are distinct.\<close>

inductive json_equiv :: "'n json \<Rightarrow> 'n json \<Rightarrow> bool" where
  equiv_null: "json_equiv JNull JNull"
| equiv_bool: "json_equiv (JBool b) (JBool b)"
| equiv_num: "json_equiv (JNum n) (JNum n)"
| equiv_str: "json_equiv (JStr s) (JStr s)"
| equiv_arr: "list_all2 json_equiv xs ys \<Longrightarrow> json_equiv (JArr xs) (JArr ys)"
| equiv_obj:
    "distinct (map fst kvs1) \<Longrightarrow> distinct (map fst kvs2) \<Longrightarrow>
     set (map fst kvs1) = set (map fst kvs2) \<Longrightarrow>
     list_all (\<lambda>k. rel_option json_equiv (map_of kvs1 k) (map_of kvs2 k)) (map fst kvs1) \<Longrightarrow>
     json_equiv (JObj kvs1) (JObj kvs2)"



section \<open>Archives and requests to evaluate\<close>


definition text_response :: "nat \<Rightarrow> string \<Rightarrow> har_response" where
  "text_response code txt =
     \<lparr>resp_status = Some code, resp_headers = None, resp_content = Some \<lparr>c_text = Some txt\<rparr>\<rparr>"

definition get_entry :: "string \<Rightarrow> har_response \<Rightarrow> har_entry" where
  "get_entry u r =
     \<lparr>he_request = \<lparr>req_method = ''GET'', req_url = u, req_postData = None\<rparr>, he_response = r\<rparr>"


text \<open>The stored entry of a recorded GET.\<close>

definition stored_get :: "nat \<Rightarrow> string \<Rightarrow> string \<Rightarrow> string \<Rightarrow> har_response \<Rightarrow> entry" where
  "stored_get i u p q r =
     \<lparr>e_request = \<lparr>req_method = ''GET'', req_url = u, req_postData = None\<rparr>,
      e_response = r, e_index = i, e_path = p, e_method = ''GET'',
      e_originalUrl = u, e_queryParams = q\<rparr>"








definition collide_archive :: "har_entry list" where
  "collide_archive =
     [get_entry ''http://api.test/x'' (text_response 200 ''first''),
      get_entry ''http://api.test/x'' (text_response 500 ''second''),
      get_entry ''http://api.test/y'' (text_response 200 ''other'')]"

definition x_first :: entry where
  "x_first = stored_get 0 ''http://api.test/x'' ''/x'' [] (text_response 200 ''first'')"

definition x_second :: entry where
  "x_second = stored_get 1 ''http://api.test/x'' ''/x'' [] (text_response 500 ''second'')"


definition headers_entry :: entry where
  "headers_entry =
     stored_get 0 ''http://api.test/h'' ''/h'' []
       \<lparr>resp_status = Some 200,
        resp_headers = Some [\<lparr>h_name = ''Content-Length'', h_value = ''2''\<rparr>,
                             \<lparr>h_name = ''X-Bad'', h_value = [CHR ''a'', CHR 0x0A, CHR ''b'']\<rparr>,
                             \<lparr>h_name = ''Connection'', h_value = ''close''\<rparr>,
                             \<lparr>h_name = ''X-After'', h_value = ''1''\<rparr>],
        resp_content = Some \<lparr>c_text = Some ''ok''\<rparr>\<rparr>"


section \<open>Properties\<close>

subsection \<open>Loading the archive\<close>

lemma requestMap_processEntry:
  "requestMap (processEntry rt st ie) =
     (case registered rt ie of
        None \<Rightarrow> requestMap st
      | Some (k, e) \<Rightarrow> AList.update k e (requestMap st))"
  by (simp add: processEntry_def registered_def Let_def split: option.splits prod.splits)

lemma registered_rebuild:
  "registered rt ie = Some (k, e) \<Longrightarrow>
     generateRequestKey rt (e_method e) (e_path e) (e_queryParams e) (req_postData (e_request e)) = k"
  by (auto simp: registered_def Let_def split: option.splits prod.splits)

lemma lookup_processEntry:
  "map_of (requestMap (processEntry rt st ie)) k =
     (case registered rt ie of
        None \<Rightarrow> map_of (requestMap st) k
      | Some (k', e) \<Rightarrow> if k = k' then Some e else map_of (requestMap st) k)"
  by (simp add: requestMap_processEntry update_conv' split: option.splits prod.splits)

lemma lookup_foldl_other:
  "(\<And>x e'. x \<in> set xs \<Longrightarrow> registered rt x \<noteq> Some (k, e')) \<Longrightarrow>
     map_of (requestMap (foldl (processEntry rt) st xs)) k = map_of (requestMap st) k"
proof (induction xs arbitrary: st)
  case Nil
  then show ?case by simp
next
  case (Cons x xs)
  have "map_of (requestMap (foldl (processEntry rt) (processEntry rt st x) xs)) k
          = map_of (requestMap (processEntry rt st x)) k"
    using Cons.prems by (intro Cons.IH) auto
  also have "\<dots> = map_of (requestMap st) k"
    using Cons.prems[of x] by (auto simp: lookup_processEntry split: option.splits)
  finally show ?case by simp
qed

lemma enumerate_split:
  "i < length es \<Longrightarrow>
     enumerate 0 es = enumerate 0 (take i es) @ (i, es ! i) # enumerate (Suc i) (drop (Suc i) es)"
proof -
  assume i: "i < length es"
  then have "es = take i es @ es ! i # drop (Suc i) es"
    by (simp add: id_take_nth_drop)
  then have "enumerate 0 es = enumerate 0 (take i es @ es ! i # drop (Suc i) es)"
    by simp
  also have "\<dots> = enumerate 0 (take i es) @ (i, es ! i) # enumerate (Suc i) (drop (Suc i) es)"
    using i by (simp add: enumerate_append_eq min_def)
  finally show ?thesis .
qed

lemma groups_ok_processEntry:
  assumes "groups_ok st"
  shows "groups_ok (processEntry rt st ie)"
proof (cases "URL_parse rt (req_url (he_request (snd ie)))")
  case None
  then show ?thesis using assms by (simp add: processEntry_def)
next
  case (Some ps)
  obtain pathname search where ps: "ps = (pathname, search)" by (cases ps)
  show ?thesis
    unfolding groups_ok_def
  proof (intro allI impI)
    fix apiKey g
    assume g: "map_of (apiGroups (processEntry rt st ie)) apiKey = Some g"
    from g assms show "g_variants g \<noteq> [] \<and>
        (\<forall>v \<in> set (g_variants g).
           map_of (requestMap (processEntry rt st ie)) (v_requestKey v) \<noteq> None)"
      unfolding processEntry_def groups_ok_def Let_def Some ps
      by (auto simp: update_conv' split: if_splits option.splits)
  qed
qed

lemma distinct_groups_processEntry:
  "distinct (map fst (apiGroups st)) \<Longrightarrow> distinct (map fst (apiGroups (processEntry rt st ie)))"
  by (auto simp: processEntry_def Let_def distinct_update split: option.splits prod.splits)

lemma foldl_invariant:
  "P st \<Longrightarrow> (\<And>s x. P s \<Longrightarrow> P (f s x)) \<Longrightarrow> P (foldl f st xs)"
  by (induction xs arbitrary: st) auto

lemma groups_ok_load: "groups_ok (processHAREntries rt entries)"
  unfolding processHAREntries_def
proof (rule foldl_invariant[where P = groups_ok])
  show "groups_ok \<lparr>requestMap = [], apiGroups = []\<rparr>"
    by (simp add: groups_ok_def)
next
  fix s x
  assume "groups_ok s"
  then show "groups_ok (processEntry rt s x)"
    by (rule groups_ok_processEntry)
qed

lemma distinct_groups_load: "distinct (map fst (apiGroups (processHAREntries rt entries)))"
  unfolding processHAREntries_def
  by (rule foldl_invariant[where P = "\<lambda>s. distinct (map fst (apiGroups s))"])
     (simp_all add: distinct_groups_processEntry)

subsection \<open>The matcher\<close>









subsection \<open>Query strings\<close>










subsection \<open>Bodies\<close>













text \<open>
  Where \<^const>\<open>normalizeBody\<close> takes both texts for JSON, the order of the keys does not matter, at
  any depth: \<^const>\<open>sortObjectKeys\<close> gives one value for two values that are equal up to the order
  of the keys.
\<close>

lemma map_cong_rel:
  "list_all2 (\<lambda>x y. f x = f y) xs ys \<Longrightarrow> map f xs = map f ys"
  by (induction rule: list_all2_induct) auto

lemma sortObjectKeys_lookup:
  "map_of (map (\<lambda>(k, v). (k, sortObjectKeys v)) kvs) key = map_option sortObjectKeys (map_of kvs key)"
  by (induction kvs) auto

lemma sortObjectKeys_equiv:
  "json_equiv a b \<Longrightarrow> sortObjectKeys a = sortObjectKeys b"
proof (induction rule: json_equiv.induct)
  case (equiv_arr xs ys)
  then have "list_all2 (\<lambda>x y. sortObjectKeys x = sortObjectKeys y) xs ys"
    by (simp add: list_all2_conv_all_nth)
  then show ?case
    by (simp add: map_cong_rel)
next
  case (equiv_obj kvs1 kvs2)
  have keys: "sort (map fst kvs1) = sort (map fst kvs2)"
    using equiv_obj.hyps(1-3) by (intro sorted_distinct_set_unique) simp_all
  have look: "map_option sortObjectKeys (map_of kvs1 key) = map_option sortObjectKeys (map_of kvs2 key)"
    if "key \<in> set (map fst kvs1)" for key
  proof -
    from equiv_obj.IH that
    have "rel_option (\<lambda>x y. json_equiv x y \<and> sortObjectKeys x = sortObjectKeys y)
            (map_of kvs1 key) (map_of kvs2 key)"
      by (auto simp: list_all_iff)
    then show ?thesis
      by (cases "map_of kvs1 key"; cases "map_of kvs2 key") auto
  qed
  have "foldl
       (\<lambda>sortedObj key.
          if key = ''__proto__'' then sortedObj
          else own_set sortedObj key
                 (case map_of (map (\<lambda>(k, v). (k, sortObjectKeys v)) kvs1) key of
                    Some v \<Rightarrow> v
                  | None \<Rightarrow> JNull))
       [] (sort (map fst kvs1))
     = foldl
       (\<lambda>sortedObj key.
          if key = ''__proto__'' then sortedObj
          else own_set sortedObj key
                 (case map_of (map (\<lambda>(k, v). (k, sortObjectKeys v)) kvs2) key of
                    Some v \<Rightarrow> v
                  | None \<Rightarrow> JNull))
       [] (sort (map fst kvs1))"
    by (rule foldl_cong) (simp_all add: sortObjectKeys_lookup look)
  then show ?case
    using keys by simp
qed simp_all

lemma normalizeJson_key_order:
  assumes "JSON_parse rt t1 = Some v1" and "JSON_parse rt t2 = Some v2" and "json_equiv v1 v2"
  shows "normalizeJson rt t1 = normalizeJson rt t2"
  using assms by (simp add: normalizeJson_def sortObjectKeys_equiv)

lemma normalizeBody_key_order:
  assumes "JSON_parse rt t1 = Some v1" and "JSON_parse rt t2 = Some v2" and "json_equiv v1 v2"
    and "normalizeJson rt t1 \<noteq> t1" and "normalizeJson rt t2 \<noteq> t2"
  shows "normalizeBody rt t1 = normalizeBody rt t2"
  using assms normalizeJson_key_order[OF assms(1-3)] by (simp add: normalizeBody_def)

lemma normalizeBody_key_order_example:
  "normalizeBody node_rt ''{\"b\":2,\"a\":[{\"d\":1,\"c\":2}]}''
     = normalizeBody node_rt ''{\"a\": [{\"c\":2,\"d\":1}], \"b\": 2}''"
proof -
  let ?t1 = "''{\"b\":2,\"a\":[{\"d\":1,\"c\":2}]}''"
  let ?t2 = "''{\"a\": [{\"c\":2,\"d\":1}], \"b\": 2}''"
  let ?v1 = "JObj [(''b'', JNum 2), (''a'', JArr [JObj [(''d'', JNum 1), (''c'', JNum (2::int))]])]"
  let ?v2 = "JObj [(''a'', JArr [JObj [(''c'', JNum 2), (''d'', JNum 1)]]), (''b'', JNum (2::int))]"
  have p1: "JSON_parse node_rt ?t1 = Some ?v1"
    by code_simp
  have p2: "JSON_parse node_rt ?t2 = Some ?v2"
    by code_simp
  have "json_equiv (JObj [(''d'', JNum 1), (''c'', JNum (2::int))])
                   (JObj [(''c'', JNum 2), (''d'', JNum 1)])"
    by (rule equiv_obj) (auto intro: json_equiv.intros)
  then have e: "json_equiv ?v1 ?v2"
    by (intro equiv_obj) (auto intro: json_equiv.intros)
  have n1: "normalizeJson node_rt ?t1 \<noteq> ?t1"
    by code_simp
  have n2: "normalizeJson node_rt ?t2 \<noteq> ?t2"
    by code_simp
  from normalizeBody_key_order[OF p1 p2 e n1 n2] show ?thesis .
qed

lemma spec_example_bodies:
  "normalizeBody node_rt ''{\"a\":1,\"b\":2}'' = ''{\"a\":1,\"b\":2}''
   \<and> normalizeBody node_rt ''{\"b\":2,\"a\":1}'' = ''{\"a\":1,\"b\":2}''"
  by code_simp

text \<open>
  C4. The claim fails where a text is taken for a text that is not JSON although it is.
  The two body texts below parse to the same JSON value. The first is already what
  \<^verbatim>\<open>normalizeJson\<close> returns for it, so \<^verbatim>\<open>normalizedBody !== postData.text\<close> is false, the text is
  taken for a text that is not JSON and the two spaces inside its string are collapsed; the
  second has a space after the colon and keeps the two spaces. The two signatures differ.
\<close>

theorem normalized_json_is_collapsed:
  "JSON_parse node_rt ''{\"a\":\"x  y\"}'' = Some (JObj [(''a'', JStr ''x  y'')])
   \<and> JSON_parse node_rt ''{\"a\": \"x  y\"}'' = Some (JObj [(''a'', JStr ''x  y'')])
   \<and> normalizeBody node_rt ''{\"a\":\"x  y\"}'' = ''{\"a\":\"x y\"}''
   \<and> normalizeBody node_rt ''{\"a\": \"x  y\"}'' = ''{\"a\":\"x  y\"}''
   \<and> generateRequestKey node_rt ''POST'' ''/p'' [] (Some \<lparr>pd_text = Some ''{\"a\":\"x  y\"}''\<rparr>)
        \<noteq> generateRequestKey node_rt ''POST'' ''/p'' [] (Some \<lparr>pd_text = Some ''{\"a\": \"x  y\"}''\<rparr>)"
  by code_simp




subsection \<open>The signature index\<close>

text \<open>
  C7 (amended). For every entry that \<^verbatim>\<open>processHAREntries\<close> registers, the lookup of the
  signature rebuilt from the method, path, query string and body stored with the entry
  returns that entry, provided that no later entry of the archive is registered under the
  same signature: a later one replaces it.
\<close>

theorem last_registered_is_found:
  assumes i: "i < length entries"
    and reg: "registered rt (i, entries ! i) = Some (k, e)"
    and later: "\<forall>j e'. i < j \<and> j < length entries \<longrightarrow> registered rt (j, entries ! j) \<noteq> Some (k, e')"
  shows "map_of (requestMap (processHAREntries rt entries))
           (generateRequestKey rt (e_method e) (e_path e) (e_queryParams e)
              (req_postData (e_request e))) = Some e"
proof -
  let ?st0 = "\<lparr>requestMap = [], apiGroups = []\<rparr>"
  let ?st1 = "foldl (processEntry rt) ?st0 (enumerate 0 (take i entries))"
  let ?rest = "enumerate (Suc i) (drop (Suc i) entries)"
  have split: "processHAREntries rt entries
                 = foldl (processEntry rt) (processEntry rt ?st1 (i, entries ! i)) ?rest"
    unfolding processHAREntries_def by (subst enumerate_split[OF i]) simp
  have rest: "registered rt x \<noteq> Some (k, e')" if "x \<in> set ?rest" for x e'
  proof -
    from that have "Suc i \<le> fst x" "fst x < length entries" "entries ! fst x = snd x"
      by (auto simp: in_set_enumerate_eq)
    with later[rule_format, of "fst x" e'] show ?thesis
      by (cases x) auto
  qed
  have "map_of (requestMap (processHAREntries rt entries)) k
          = map_of (requestMap (processEntry rt ?st1 (i, entries ! i))) k"
    unfolding split by (rule lookup_foldl_other) (use rest in blast)
  also have "\<dots> = Some e"
    using reg by (simp add: lookup_processEntry)
  finally show ?thesis
    using registered_rebuild[OF reg] by simp
qed

text \<open>
  C7, at the second entry of \<open>collide_archive\<close>, which the third does not replace.
\<close>

theorem last_registered_is_found_witness:
  "registered node_rt (1, collide_archive ! 1) = Some (''GET:/x'', x_second)
   \<and> registered node_rt (2, collide_archive ! 2)
        = Some (''GET:/y'', stored_get 2 ''http://api.test/y'' ''/y'' [] (text_response 200 ''other''))
   \<and> map_of (requestMap (processHAREntries node_rt collide_archive))
        (generateRequestKey node_rt (e_method x_second) (e_path x_second) (e_queryParams x_second)
           (req_postData (e_request x_second))) = Some x_second"
proof -
  have len: "length collide_archive = 3"
    by (simp add: collide_archive_def)
  have r1: "registered node_rt (1, collide_archive ! 1) = Some (''GET:/x'', x_second)"
    by code_simp
  have r2: "registered node_rt (2, collide_archive ! 2)
        = Some (''GET:/y'', stored_get 2 ''http://api.test/y'' ''/y'' [] (text_response 200 ''other''))"
    by code_simp
  have later: "\<forall>j e'. 1 < j \<and> j < length collide_archive
                 \<longrightarrow> registered node_rt (j, collide_archive ! j) \<noteq> Some (''GET:/x'', e')"
  proof (intro allI impI)
    fix j e'
    assume "1 < j \<and> j < length collide_archive"
    with len have "j = 2" by simp
    with r2 show "registered node_rt (j, collide_archive ! j) \<noteq> Some (''GET:/x'', e')"
      by simp
  qed
  have "1 < length collide_archive" using len by simp
  from last_registered_is_found[OF this r1 later] r1 r2 show ?thesis
    by simp
qed

text \<open>
  C7 as stated fails at the first entry of \<open>collide_archive\<close>: the second entry has the same
  signature, and the lookup returns the second.
\<close>

theorem overwritten_entry_counterexample:
  "registered node_rt (0, collide_archive ! 0) = Some (''GET:/x'', x_first)
   \<and> map_of (requestMap (processHAREntries node_rt collide_archive))
        (generateRequestKey node_rt (e_method x_first) (e_path x_first) (e_queryParams x_first)
           (req_postData (e_request x_first))) = Some x_second
   \<and> x_second \<noteq> x_first"
  by code_simp

text \<open>
  C10. After the archive is loaded, the key of every variant of every group is a key of
  \<^verbatim>\<open>requestMap\<close>.
\<close>

theorem variant_keys_in_requestMap:
  "\<forall>(apiKey, g) \<in> set (apiGroups (processHAREntries rt entries)).
     \<forall>v \<in> set (g_variants g).
       v_requestKey v \<in> fst ` set (requestMap (processHAREntries rt entries))"
proof (clarify)
  fix apiKey g v
  assume "(apiKey, g) \<in> set (apiGroups (processHAREntries rt entries))" and v: "v \<in> set (g_variants g)"
  then have "map_of (apiGroups (processHAREntries rt entries)) apiKey = Some g"
    using distinct_groups_load[of rt entries] by (simp add: map_of_eq_Some_iff)
  with v groups_ok_load[of rt entries]
  have "map_of (requestMap (processHAREntries rt entries)) (v_requestKey v) \<noteq> None"
    unfolding groups_ok_def by blast
  then show "v_requestKey v \<in> fst ` set (requestMap (processHAREntries rt entries))"
    by (simp add: map_of_eq_None_iff)
qed

text \<open>
  C10, at the group of \<^verbatim>\<open>GET /x\<close> in \<open>collide_archive\<close>, whose first variant was replaced in
  \<^verbatim>\<open>requestMap\<close> by the second.
\<close>

theorem variant_keys_in_requestMap_witness:
  "(''GET:/x'',
      \<lparr>g_method = ''GET'', g_path = ''/x'',
       g_variants =
         [\<lparr>v_queryParams = [], v_postData = None, v_response = text_response 200 ''first'',
           v_originalUrl = ''http://api.test/x'', v_requestKey = ''GET:/x'', v_index = 0\<rparr>,
          \<lparr>v_queryParams = [], v_postData = None, v_response = text_response 500 ''second'',
           v_originalUrl = ''http://api.test/x'', v_requestKey = ''GET:/x'', v_index = 1\<rparr>]\<rparr>)
     \<in> set (apiGroups (processHAREntries node_rt collide_archive))
   \<and> ''GET:/x'' \<in> fst ` set (requestMap (processHAREntries node_rt collide_archive))"
proof -
  let ?v = "\<lparr>v_queryParams = [], v_postData = None, v_response = text_response 200 ''first'',
           v_originalUrl = ''http://api.test/x'', v_requestKey = ''GET:/x'', v_index = 0\<rparr>"
  let ?g = "\<lparr>g_method = ''GET'', g_path = ''/x'',
       g_variants =
         [?v,
          \<lparr>v_queryParams = [], v_postData = None, v_response = text_response 500 ''second'',
           v_originalUrl = ''http://api.test/x'', v_requestKey = ''GET:/x'', v_index = 1\<rparr>]\<rparr>"
  have g: "(''GET:/x'', ?g) \<in> set (apiGroups (processHAREntries node_rt collide_archive))"
    by code_simp
  have "?v \<in> set (g_variants ?g)"
    by simp
  with g variant_keys_in_requestMap[of node_rt collide_archive]
  have "v_requestKey ?v \<in> fst ` set (requestMap (processHAREntries node_rt collide_archive))"
    by blast
  with g show ?thesis by simp
qed

subsection \<open>The responder\<close>





lemma setRecordedHeaders_attempted:
  "fst (snd (setRecordedHeaders rt hs (res, attempted, warnings)))
     = attempted @ map (\<lambda>h. (h_name h, h_value h))
                     (filter (\<lambda>h. toLowerCase rt (h_name h) \<notin> set skipHeaders) hs)"
  by (induction hs arbitrary: res attempted warnings) (auto split: option.splits)

text \<open>
  C9. When a matched entry is replayed, \<^verbatim>\<open>res.set\<close> is called for the recorded headers whose
  lower-cased name is not in the list \<^verbatim>\<open>skipHeaders\<close>, for all of them, in their order, and for
  no other recorded header, whichever of these calls throw; and the response is sent with
  the recorded status and content. The only call of \<^verbatim>\<open>res.set\<close> that is not caught is the one
  that adds \<^verbatim>\<open>Access-Control-Allow-Origin: *\<close>, which is assumed not to throw.
\<close>

theorem recorded_headers_filtered:
  assumes backstop: "\<forall>hs. res_set rt hs ''Access-Control-Allow-Origin'' ''*'' \<noteq> None"
  shows "skipHeaders = [''content-encoding'', ''content-length'', ''transfer-encoding'',
                        ''connection'', ''upgrade'', ''host'', ''origin'', ''referer'']
         \<and> (\<exists>r. sendMockedResponse rt res e = Inr r
           \<and> lr_attempted r
               = map (\<lambda>h. (h_name h, h_value h))
                   (filter (\<lambda>h. toLowerCase rt (h_name h) \<notin> set skipHeaders)
                      (case resp_headers (e_response e) of None \<Rightarrow> [] | Some hs \<Rightarrow> hs))
           \<and> lr_status r = (case resp_status (e_response e) of
                               None \<Rightarrow> 200 | Some n \<Rightarrow> if n = 0 then 200 else n)
           \<and> lr_body r = sendContent rt (e_response e))"
proof -
  obtain hs attempted warnings where acc:
    "(case resp_headers (e_response e) of
        None \<Rightarrow> (res, [], [])
      | Some headers \<Rightarrow> setRecordedHeaders rt headers (res, [], [])) = (hs, attempted, warnings)"
    by (metis prod_cases3)
  have att: "attempted = map (\<lambda>h. (h_name h, h_value h))
                   (filter (\<lambda>h. toLowerCase rt (h_name h) \<notin> set skipHeaders)
                      (case resp_headers (e_response e) of None \<Rightarrow> [] | Some hs \<Rightarrow> hs))"
  proof (cases "resp_headers (e_response e)")
    case None
    then show ?thesis using acc by simp
  next
    case (Some headers)
    then have "setRecordedHeaders rt headers (res, [], []) = (hs, attempted, warnings)"
      using acc by simp
    then have "fst (snd (setRecordedHeaders rt headers (res, [], []))) = attempted"
      by simp
    then show ?thesis
      using Some by (simp add: setRecordedHeaders_attempted)
  qed
  obtain hs' where "res_set rt hs ''Access-Control-Allow-Origin'' ''*'' = Some hs'"
    using backstop by auto
  then have "\<exists>r. sendMockedResponse rt res e = Inr r
           \<and> lr_attempted r
               = map (\<lambda>h. (h_name h, h_value h))
                   (filter (\<lambda>h. toLowerCase rt (h_name h) \<notin> set skipHeaders)
                      (case resp_headers (e_response e) of None \<Rightarrow> [] | Some hs \<Rightarrow> hs))
           \<and> lr_status r = (case resp_status (e_response e) of
                               None \<Rightarrow> 200 | Some n \<Rightarrow> if n = 0 then 200 else n)
           \<and> lr_body r = sendContent rt (e_response e)"
    using acc att
    by (auto simp: sendMockedResponse_def Let_def split: option.splits)
  then show ?thesis
    by (simp add: skipHeaders_def)
qed

text \<open>
  C9, at an entry with two headers of the list and a header whose value has a line feed,
  which \<^verbatim>\<open>res.set\<close> rejects: the header after it is set.
\<close>

theorem recorded_headers_filtered_witness:
  "(\<forall>hs. res_set node_rt hs ''Access-Control-Allow-Origin'' ''*'' \<noteq> None)
   \<and> sendMockedResponse node_rt cors_headers headers_entry
       = Inr \<lparr>lr_status = 200,
              lr_headers = cors_headers @ [(''x-after'', ''1'')],
              lr_body = SentText ''ok'',
              lr_attempted = [(''X-Bad'', [CHR ''a'', CHR 0x0A, CHR ''b'']), (''X-After'', ''1'')],
              lr_warnings = [''X-Bad'']\<rparr>"
proof -
  have backstop: "\<forall>hs. res_set node_rt hs ''Access-Control-Allow-Origin'' ''*'' \<noteq> None"
    by (simp add: node_rt_def node_res_set_def token_char_def is_alnum_def is_digit_def
          is_lower_def value_char_def)
  have v: "sendMockedResponse node_rt cors_headers headers_entry
       = Inr \<lparr>lr_status = 200,
              lr_headers = cors_headers @ [(''x-after'', ''1'')],
              lr_body = SentText ''ok'',
              lr_attempted = [(''X-Bad'', [CHR ''a'', CHR 0x0A, CHR ''b'']), (''X-After'', ''1'')],
              lr_warnings = [''X-Bad'']\<rparr>"
    by code_simp
  from recorded_headers_filtered[OF backstop, of cors_headers headers_entry] backstop v
  show ?thesis by blast
qed

end
